theory Spec2Isabelle
  imports Complex_Main "HOL-Library.Word"
begin

unbundle bit_operations_syntax

section \<open>The SVG overlay source of plugins/python/glsvgoverlaysrc.py\<close>

text \<open>
  The class \<open>SvgOverlaySource\<close> is embedded as a record of its fields and one function per
  method, each taking the object and returning it updated. Every \<open>with self.cond:\<close> block
  is one atomic step. The condition variable is the field \<open>waiting\<close>: it is true while
  the pull thread sleeps in \<open>self.cond.wait()\<close> (line 221), and \<open>notify_all\<close> clears it.
  The host pipeline has one pull thread, so one flag is the whole set of waiters.
\<close>

subsection \<open>Data\<close>

type_synonym byte = "8 word"
type_synonym clock_time = "64 word"

text \<open>The members of \<open>Gst.FlowReturn\<close> the element returns, with their integer values.\<close>

datatype flow_return = OK | EOS | FLUSHING

fun flow_value :: "flow_return \<Rightarrow> int" where
  "flow_value OK = 0"
| "flow_value EOS = - 3"
| "flow_value FLUSHING = - 2"

text \<open>\<open>if result:\<close> on a value that is \<open>None\<close> or an integer enumeration member.\<close>

fun truthy :: "flow_return option \<Rightarrow> bool" where
  "truthy None = False"
| "truthy (Some r) = (flow_value r \<noteq> 0)"

datatype error = AssertionError | ValueError | RuntimeError | ZeroDivisionError

record svg_overlay_source =
  is_live :: bool
  width :: int
  height :: int
  min_stride :: int
  flushing :: bool
  eos :: bool
  queue :: "(string \<times> clock_time) list"
  print_fps :: int
  fps_start :: real
  input_frames :: int
  output_frames :: int
  waiting :: bool

text \<open>
  \<open>GstVideoMeta\<close> as \<open>render_svg\<close> reads it; \<open>meta_stride0\<close> is \<open>meta.stride[0]\<close>, the
  first entry of a fixed array of four.
\<close>

record video_meta =
  meta_n_planes :: int
  meta_width :: int
  meta_height :: int
  meta_stride0 :: int

text \<open>
  A \<open>Gst.Buffer\<close>: its optional video meta, whether the mini object is writable, whether
  \<open>gst_buffer_map\<close> succeeds on it, its bytes (\<open>mapping.size\<close> of them) and its \<open>pts\<close>.
\<close>

record gst_buffer =
  meta :: "video_meta option"
  writable :: bool
  mappable :: bool
  data :: "byte list"
  pts :: clock_time

text \<open>
  What one call of \<open>do_gst_push_src_fill\<close> gets from \<open>time.monotonic()\<close> and from
  Python's float arithmetic: the reading of line 235 (taken when \<open>fps_start\<close> is unset);
  the float to which line 237 evaluates \<open>time.monotonic() - self.fps_start\<close>, as a
  function of the window start it is given; and the reading of line 242 (taken when a
  report is printed). A float is read as the real it denotes. The subtraction of line
  237 rounds as binary64 arithmetic does and is not computed here: the definitions take
  its result from the clock, so the statements hold whatever it rounds to.
\<close>

record clock =
  t_start :: real
  elapsed_since :: "real \<Rightarrow> real"
  t_report :: real

text \<open>
  cairo and librsvg are outside the repository. The rasterizer is a parameter: from the
  markup, the width, the height, the stride and the bytes of the mapped memory it gives
  the bytes left there by lines 264 to 280.
\<close>

type_synonym renderer = "string \<Rightarrow> int \<Rightarrow> int \<Rightarrow> int \<Rightarrow> byte list \<Rightarrow> byte list"

definition DEFAULT_IS_LIVE :: bool where "DEFAULT_IS_LIVE = True"
definition DEFAULT_HEIGHT :: int where "DEFAULT_HEIGHT = 640"
definition DEFAULT_WIDTH :: int where "DEFAULT_WIDTH = 480"

text \<open>\<open>__init__\<close>; the argument is \<open>int(os.environ.get('PRINT_FPS', '0'))\<close>.\<close>

definition init :: "int \<Rightarrow> svg_overlay_source" where
  "init env_print_fps =
     \<lparr> is_live = DEFAULT_IS_LIVE, width = DEFAULT_WIDTH, height = DEFAULT_HEIGHT,
       min_stride = 0, flushing = False, eos = False, queue = [],
       print_fps = env_print_fps, fps_start = 0, input_frames = 0, output_frames = 0,
       waiting = False \<rparr>"

subsection \<open>Producer side\<close>

definition notify_all :: "svg_overlay_source \<Rightarrow> svg_overlay_source" where
  "notify_all s = s\<lparr>waiting := False\<rparr>"

definition reset :: "svg_overlay_source \<Rightarrow> svg_overlay_source" where
  "reset s = s\<lparr>eos := False, queue := []\<rparr>"

definition set_eos :: "svg_overlay_source \<Rightarrow> svg_overlay_source" where
  "set_eos s = s\<lparr>eos := True\<rparr>"

definition queue_svg :: "svg_overlay_source \<Rightarrow> string \<Rightarrow> clock_time \<Rightarrow> svg_overlay_source" where
  "queue_svg s svg p =
     (let s1 = s\<lparr>input_frames := input_frames s + 1\<rparr>;
          s2 = (if is_live s1 then s1\<lparr>queue := []\<rparr> else s1);
          s3 = s2\<lparr>queue := queue s2 @ [(svg, p)]\<rparr>
      in notify_all s3)"

definition set_flushing :: "svg_overlay_source \<Rightarrow> bool \<Rightarrow> svg_overlay_source" where
  "set_flushing s v = notify_all (s\<lparr>flushing := v\<rparr>)"

definition do_unlock :: "svg_overlay_source \<Rightarrow> bool \<times> svg_overlay_source" where
  "do_unlock s = (True, set_flushing s True)"

definition do_unlock_stop :: "svg_overlay_source \<Rightarrow> bool \<times> svg_overlay_source" where
  "do_unlock_stop s = (True, set_flushing s False)"

definition do_start :: "svg_overlay_source \<Rightarrow> bool \<times> svg_overlay_source" where
  "do_start s = (True, reset s)"

definition do_stop :: "svg_overlay_source \<Rightarrow> bool \<times> svg_overlay_source" where
  "do_stop s = (True, reset s)"

text \<open>
  \<open>do_set_caps\<close>; \<open>stride_for_width\<close> stands for cairo's
  \<open>cairo_format_stride_for_width(CAIRO_FORMAT_ARGB32, _)\<close>.
\<close>

definition do_set_caps ::
    "(int \<Rightarrow> int) \<Rightarrow> svg_overlay_source \<Rightarrow> int \<Rightarrow> int \<Rightarrow> bool \<times> svg_overlay_source" where
  "do_set_caps stride_for_width s w h =
     (True, s\<lparr>width := w, height := h, min_stride := stride_for_width w\<rparr>)"

text \<open>A run of submissions, in order.\<close>

fun submits :: "svg_overlay_source \<Rightarrow> (string \<times> clock_time) list \<Rightarrow> svg_overlay_source" where
  "submits s [] = s"
| "submits s ((svg, p) # items) = submits (queue_svg s svg p) items"

subsection \<open>Seek events\<close>

text \<open>
  \<open>Gst.SeekFlags\<close> is a 32-bit flags value; \<open>Gst.SeekFlags.FLUSH\<close> is GStreamer's
  \<open>GST_SEEK_FLAG_FLUSH = (1 << 0)\<close>. An event is a seek carrying its flags or anything
  else. The events handed to \<open>send_event\<close> are collected in order; what the host
  pipeline does with them is not part of the file. Any other event goes to the base
  class.
\<close>

type_synonym seek_flags = "32 word"

definition SeekFlags_FLUSH :: seek_flags where
  "SeekFlags_FLUSH = 1"

datatype event = SEEK seek_flags | OTHER

datatype sent_event = Flush_start | Flush_stop bool

datatype event_result = Handled bool | BaseSrc_do_event

definition flush_test :: "seek_flags \<Rightarrow> bool" where
  "flush_test flags = ((flags OR SeekFlags_FLUSH) \<noteq> 0)"

fun do_event ::
    "svg_overlay_source \<Rightarrow> event \<Rightarrow> event_result \<times> sent_event list \<times> svg_overlay_source" where
  "do_event s (SEEK flags) =
     (Handled True,
      (if flush_test flags then [Flush_start, Flush_stop True] else []),
      reset s)"
| "do_event s OTHER = (BaseSrc_do_event, [], s)"

subsection \<open>Consumer side\<close>

definition get_flow_return_locked ::
    "svg_overlay_source \<Rightarrow> flow_return option \<Rightarrow> flow_return option \<times> svg_overlay_source" where
  "get_flow_return_locked s dflt =
     (if queue s = [] \<and> eos s then (Some EOS, s\<lparr>eos := False\<rparr>)
      else if flushing s then (Some FLUSHING, s)
      else (dflt, s))"

text \<open>
  The first locked block of \<open>do_gst_push_src_fill\<close> (lines 215 to 227). It ends by
  returning a status, by popping the head of the queue, or in \<open>self.cond.wait()\<close>. When
  the wait returns, lines 222 to 224 and the loop test of line 220 run: the same three
  steps as lines 216 to 220, so a woken thread continues with \<open>take_locked\<close> again.
\<close>

datatype taken = Status "flow_return option" | Item string clock_time | Wait

definition wait_loop :: "svg_overlay_source \<Rightarrow> taken \<times> svg_overlay_source" where
  "wait_loop s =
     (case queue s of
        [] \<Rightarrow> (Wait, s\<lparr>waiting := True\<rparr>)
      | (svg, p) # rest \<Rightarrow> (Item svg p, s\<lparr>queue := rest\<rparr>))"

definition take_locked :: "svg_overlay_source \<Rightarrow> taken \<times> svg_overlay_source" where
  "take_locked s =
     (case get_flow_return_locked s None of
        (result, s1) \<Rightarrow> if truthy result then (Status result, s1) else wait_loop s1)"

text \<open>\<open>_gst_buffer_map\<close>: the two raises, then the mapped bytes.\<close>

definition gst_buffer_map :: "gst_buffer \<Rightarrow> bool \<Rightarrow> error + byte list" where
  "gst_buffer_map buf write_flag =
     (if write_flag \<and> \<not> writable buf then Inl ValueError
      else if \<not> mappable buf then Inl RuntimeError
      else Inr (data buf))"

text \<open>Lines 248 to 256 of \<open>render_svg\<close>: the stride, or the first failing assertion.\<close>

definition frame_stride :: "svg_overlay_source \<Rightarrow> gst_buffer \<Rightarrow> error + int" where
  "frame_stride s buf =
     (case meta buf of
        Some m \<Rightarrow>
          if meta_n_planes m \<noteq> 1 then Inl AssertionError
          else if meta_width m \<noteq> width s then Inl AssertionError
          else if meta_height m \<noteq> height s then Inl AssertionError
          else if \<not> (meta_stride0 m \<ge> min_stride s) then Inl AssertionError
          else Inr (meta_stride0 m)
      | None \<Rightarrow> Inr (min_stride s))"

text \<open>
  \<open>render_svg\<close>. Every raise comes before the \<open>memset\<close> of line 262, the first write to
  the mapped memory, so an error leaves the buffer as it was passed. The \<open>assert\<close>
  statements are executed, as in the interpreter's default mode.
\<close>

definition render_svg ::
    "renderer \<Rightarrow> svg_overlay_source \<Rightarrow> string \<Rightarrow> gst_buffer \<Rightarrow> error + gst_buffer" where
  "render_svg rsvg s svg buf =
     (case frame_stride s buf of
        Inl e \<Rightarrow> Inl e
      | Inr stride \<Rightarrow>
          (case gst_buffer_map buf True of
             Inl e \<Rightarrow> Inl e
           | Inr mapped \<Rightarrow>
               if \<not> (int (length mapped) \<ge> stride * height s) then Inl AssertionError
               else Inr (buf\<lparr>data :=
                      rsvg svg (width s) (height s) stride (replicate (length mapped) 0)\<rparr>)))"

text \<open>
  Lines 233 to 244, the statistics. The report of line 239 divides by \<open>elapsed\<close>, which
  raises when it is zero; the printed text itself is not kept.
\<close>

definition update_stats ::
    "clock \<Rightarrow> svg_overlay_source \<Rightarrow> error \<times> svg_overlay_source + svg_overlay_source" where
  "update_stats clk s =
     (let s1 = s\<lparr>output_frames := output_frames s + 1\<rparr>;
          s2 = (if fps_start s1 = 0 then s1\<lparr>fps_start := t_start clk\<rparr> else s1);
          elapsed = elapsed_since clk (fps_start s2)
      in if print_fps s2 \<noteq> 0 \<and> elapsed > real_of_int (print_fps s2)
         then (if elapsed = 0 then Inl (ZeroDivisionError, s2)
               else Inr (s2\<lparr>fps_start := t_report clk, input_frames := 0, output_frames := 0\<rparr>))
         else Inr s2)"

text \<open>
  \<open>do_gst_push_src_fill\<close>, run without a producer in between: what the call returns or
  raises, or that it sleeps in the wait, with the buffer and the object as they are then.
\<close>

datatype outcome = Returned "flow_return option" | Raised error | Blocked

definition do_gst_push_src_fill ::
    "renderer \<Rightarrow> clock \<Rightarrow> svg_overlay_source \<Rightarrow> gst_buffer
       \<Rightarrow> outcome \<times> gst_buffer \<times> svg_overlay_source" where
  "do_gst_push_src_fill rsvg clk s buf =
     (case take_locked s of
        (Status result, s1) \<Rightarrow> (Returned result, buf, s1)
      | (Wait, s1) \<Rightarrow> (Blocked, buf, s1)
      | (Item svg p, s1) \<Rightarrow>
          (case render_svg rsvg s1 svg buf of
             Inl e \<Rightarrow> (Raised e, buf, s1)
           | Inr buf1 \<Rightarrow>
               (let buf2 = buf1\<lparr>pts := p\<rparr> in
                case update_stats clk s1 of
                  Inl (e, s2) \<Rightarrow> (Raised e, buf2, s2)
                | Inr s2 \<Rightarrow>
                    (case get_flow_return_locked s2 (Some OK) of
                       (result, s3) \<Rightarrow> (Returned result, buf2, s3)))))"

text \<open>
  Sequential fill calls of the one pull thread, each with its clock readings and its
  buffer. A call that sleeps in the wait never returns when no producer runs, so no
  later call is made.
\<close>

fun fills ::
    "renderer \<Rightarrow> svg_overlay_source \<Rightarrow> (clock \<times> gst_buffer) list
       \<Rightarrow> (outcome \<times> gst_buffer) list \<times> svg_overlay_source" where
  "fills rsvg s [] = ([], s)"
| "fills rsvg s ((clk, buf) # rest) =
     (case do_gst_push_src_fill rsvg clk s buf of
        (out, buf', s') \<Rightarrow>
          if out = Blocked then ([(out, buf')], s')
          else (case fills rsvg s' rest of (outs, s'') \<Rightarrow> ((out, buf') # outs, s'')))"

subsection \<open>Calls from outside\<close>

text \<open>
  The calls the host and the producer make on the object, for statements about every
  operation. A fill that slept in the wait and was woken continues with the steps a new
  call starts with, so \<open>Fill\<close> stands for both; a sequence of calls may also resume a
  sleeping fill that nobody notified, which a condition variable permits.
\<close>

datatype call =
    Queue_svg string clock_time
  | Set_eos
  | Set_flushing bool
  | Reset
  | Start
  | Stop
  | Unlock
  | Unlock_stop
  | Set_caps int int
  | Event event
  | Fill clock gst_buffer

fun run_call ::
    "renderer \<Rightarrow> (int \<Rightarrow> int) \<Rightarrow> svg_overlay_source \<Rightarrow> call
       \<Rightarrow> outcome option \<times> svg_overlay_source" where
  "run_call rsvg sfw s (Queue_svg svg p) = (None, queue_svg s svg p)"
| "run_call rsvg sfw s Set_eos = (None, set_eos s)"
| "run_call rsvg sfw s (Set_flushing v) = (None, set_flushing s v)"
| "run_call rsvg sfw s Reset = (None, reset s)"
| "run_call rsvg sfw s Start = (None, snd (do_start s))"
| "run_call rsvg sfw s Stop = (None, snd (do_stop s))"
| "run_call rsvg sfw s Unlock = (None, snd (do_unlock s))"
| "run_call rsvg sfw s Unlock_stop = (None, snd (do_unlock_stop s))"
| "run_call rsvg sfw s (Set_caps w h) = (None, snd (do_set_caps sfw s w h))"
| "run_call rsvg sfw s (Event ev) = (None, snd (snd (do_event s ev)))"
| "run_call rsvg sfw s (Fill clk buf) =
     (case do_gst_push_src_fill rsvg clk s buf of (out, buf', s') \<Rightarrow> (Some out, s'))"

fun run_calls ::
    "renderer \<Rightarrow> (int \<Rightarrow> int) \<Rightarrow> svg_overlay_source \<Rightarrow> call list
       \<Rightarrow> outcome option list \<times> svg_overlay_source" where
  "run_calls rsvg sfw s [] = ([], s)"
| "run_calls rsvg sfw s (c # cs) =
     (case run_call rsvg sfw s c of
        (out, s') \<Rightarrow> (case run_calls rsvg sfw s' cs of (outs, s'') \<Rightarrow> (out # outs, s'')))"

subsection \<open>Vocabulary of the statements\<close>

text \<open>The stride \<open>render_svg\<close> uses for a buffer.\<close>

definition stride_of :: "svg_overlay_source \<Rightarrow> gst_buffer \<Rightarrow> int" where
  "stride_of s buf = (case meta buf of Some m \<Rightarrow> meta_stride0 m | None \<Rightarrow> min_stride s)"

text \<open>
  A buffer that passes every check of \<open>render_svg\<close>: the assertions on its meta, the
  two tests of the mapping, and the capacity assertion.
\<close>

definition buffer_ok :: "svg_overlay_source \<Rightarrow> gst_buffer \<Rightarrow> bool" where
  "buffer_ok s buf =
     ((case meta buf of
         Some m \<Rightarrow> meta_n_planes m = 1 \<and> meta_width m = width s \<and> meta_height m = height s
                     \<and> min_stride s \<le> meta_stride0 m
       | None \<Rightarrow> True)
      \<and> writable buf \<and> mappable buf
      \<and> stride_of s buf * height s \<le> int (length (data buf)))"

text \<open>The frame a fill leaves in a buffer for one item: zeroed, rasterized, stamped.\<close>

definition frame ::
    "renderer \<Rightarrow> svg_overlay_source \<Rightarrow> string \<Rightarrow> clock_time \<Rightarrow> gst_buffer \<Rightarrow> gst_buffer" where
  "frame rsvg s svg p buf =
     buf\<lparr>data := rsvg svg (width s) (height s) (stride_of s buf)
                    (replicate (length (data buf)) 0),
         pts := p\<rparr>"

text \<open>
  The float that line 237 computes in a fill on this object, from the window start that
  line 235 has set or kept, and the test of line 238.
\<close>

definition elapsed_at :: "clock \<Rightarrow> svg_overlay_source \<Rightarrow> real" where
  "elapsed_at clk s =
     elapsed_since clk (if fps_start s = 0 then t_start clk else fps_start s)"

definition report_due :: "clock \<Rightarrow> svg_overlay_source \<Rightarrow> bool" where
  "report_due clk s = (print_fps s \<noteq> 0 \<and> elapsed_at clk s > real_of_int (print_fps s))"

text \<open>
  The two counters together; a fill that renders an item (it finds one, is not vetoed by
  the flushing flag, and its buffer passes the checks); and the object an attempt to
  update the statistics leaves, raised or not.
\<close>

definition counters :: "svg_overlay_source \<Rightarrow> int \<times> int" where
  "counters s = (input_frames s, output_frames s)"

definition renders :: "svg_overlay_source \<Rightarrow> gst_buffer \<Rightarrow> bool" where
  "renders s buf = (queue s \<noteq> [] \<and> \<not> flushing s \<and> buffer_ok s buf)"

definition final_state :: "error \<times> svg_overlay_source + svg_overlay_source \<Rightarrow> svg_overlay_source" where
  "final_state r = (case r of Inl (e, s) \<Rightarrow> s | Inr s \<Rightarrow> s)"

text \<open>
  What sequential fills return and leave in their buffers when each renders the next
  item of a list and returns \<open>OK\<close>.
\<close>

fun deliveries ::
    "renderer \<Rightarrow> svg_overlay_source \<Rightarrow> (string \<times> clock_time) list \<Rightarrow> (clock \<times> gst_buffer) list
       \<Rightarrow> (outcome \<times> gst_buffer) list" where
  "deliveries rsvg s ((svg, p) # items) ((clk, buf) # cbs) =
     (Returned (Some OK), frame rsvg s svg p buf) # deliveries rsvg s items cbs"
| "deliveries rsvg s items cbs = []"

subsection \<open>Concrete inputs\<close>

text \<open>
  An element negotiated to 2 by 1 pixels with cairo's stride rule for ARGB32 (four bytes
  a pixel), a writable buffer of eight bytes without video meta, and a rasterizer that
  draws nothing. The clock \<open>clk0\<close> starts a window at 1, finds at line 237 that two
  seconds have passed since the window start, and reads 3 at line 242. Every run below
  has its window start at 1, so line 237 reads the time 3 there, and the float
  difference of 3 and 1 is 2 without rounding.
\<close>

definition buf0 :: gst_buffer where
  "buf0 = \<lparr> meta = None, writable = True, mappable = True, data = [1, 2, 3, 4, 5, 6, 7, 8], pts = 0 \<rparr>"

definition clk0 :: clock where
  "clk0 = \<lparr> t_start = 1, elapsed_since = (\<lambda>start. 2), t_report = 3 \<rparr>"

definition src0 :: svg_overlay_source where
  "src0 = snd (do_set_caps (\<lambda>w. 4 * w) (init 0) 2 1)"

definition blank :: renderer where "blank = (\<lambda>svg w h stride bs. bs)"

text \<open>
  The same element with \<open>PRINT_FPS=1\<close>; a clock that has not advanced, which starts a
  window at 1 and finds at line 237 that no time has passed since; and a buffer of
  64 * 32 * 4 bytes.
\<close>

definition src1 :: svg_overlay_source where
  "src1 = snd (do_set_caps (\<lambda>w. 4 * w) (init 1) 2 1)"

definition clk_early :: clock where
  "clk_early = \<lparr> t_start = 1, elapsed_since = (\<lambda>start. 0), t_report = 1 \<rparr>"

definition buf_64x32 :: gst_buffer where
  "buf_64x32 = \<lparr> meta = None, writable = True, mappable = True, data = replicate (64 * 32 * 4) 7, pts = 0 \<rparr>"

section \<open>Properties\<close>

subsection \<open>Basic facts\<close>

lemma render_svg_ok:
  "buffer_ok s buf \<Longrightarrow> render_svg rsvg s svg buf =
     Inr (buf\<lparr>data := rsvg svg (width s) (height s) (stride_of s buf) (replicate (length (data buf)) 0)\<rparr>)"
  by (auto simp: buffer_ok_def render_svg_def frame_stride_def gst_buffer_map_def stride_of_def
           split: option.splits)

lemma render_svg_fails:
  "\<not> buffer_ok s buf \<Longrightarrow> \<exists>e. render_svg rsvg s svg buf = Inl e"
  by (auto simp: buffer_ok_def render_svg_def frame_stride_def gst_buffer_map_def stride_of_def
           split: option.splits)

lemma update_stats_ok:
  "0 \<le> print_fps s \<Longrightarrow> \<exists>s'. update_stats clk s = Inr s' \<and> queue s' = queue s \<and> eos s' = eos s
     \<and> flushing s' = flushing s \<and> is_live s' = is_live s \<and> width s' = width s
     \<and> height s' = height s \<and> min_stride s' = min_stride s \<and> print_fps s' = print_fps s
     \<and> waiting s' = waiting s"
  by (auto simp: update_stats_def Let_def)

lemma take_locked_item:
  "queue s = (svg, p) # rest \<Longrightarrow> \<not> flushing s \<Longrightarrow>
     take_locked s = (Item svg p, s\<lparr>queue := rest\<rparr>)"
  by (simp add: take_locked_def get_flow_return_locked_def wait_loop_def)

lemma take_locked_flushing:
  "queue s \<noteq> [] \<Longrightarrow> flushing s \<Longrightarrow> take_locked s = (Status (Some FLUSHING), s)"
  by (simp add: take_locked_def get_flow_return_locked_def)

lemma take_locked_empty:
  "queue s = [] \<Longrightarrow>
     take_locked s =
       (if eos s then (Status (Some EOS), s\<lparr>eos := False\<rparr>)
        else if flushing s then (Status (Some FLUSHING), s)
        else (Wait, s\<lparr>waiting := True\<rparr>))"
  by (simp add: take_locked_def get_flow_return_locked_def wait_loop_def)

lemma fill_item:
  assumes "queue s = (svg, p) # rest" and "\<not> flushing s" and "buffer_ok s buf"
    and "0 \<le> print_fps s"
  shows "\<exists>s'. do_gst_push_src_fill rsvg clk s buf =
           (Returned (Some (if rest = [] \<and> eos s then EOS else OK)), frame rsvg s svg p buf, s')
         \<and> queue s' = rest \<and> eos s' = (eos s \<and> rest \<noteq> []) \<and> \<not> flushing s'
         \<and> is_live s' = is_live s \<and> width s' = width s \<and> height s' = height s
         \<and> min_stride s' = min_stride s \<and> print_fps s' = print_fps s
         \<and> waiting s' = waiting s"
proof -
  let ?s1 = "s\<lparr>queue := rest\<rparr>"
  have ok1: "buffer_ok ?s1 buf"
    using assms(3) by (simp add: buffer_ok_def stride_of_def split: option.splits)
  have r: "render_svg rsvg ?s1 svg buf =
      Inr (buf\<lparr>data := rsvg svg (width s) (height s) (stride_of s buf) (replicate (length (data buf)) 0)\<rparr>)"
    using render_svg_ok [OF ok1] by (simp add: stride_of_def split: option.splits)
  obtain s2 where s2: "update_stats clk ?s1 = Inr s2" "queue s2 = rest" "eos s2 = eos s"
      "flushing s2 = flushing s" "is_live s2 = is_live s" "width s2 = width s"
      "height s2 = height s" "min_stride s2 = min_stride s" "print_fps s2 = print_fps s"
      "waiting s2 = waiting s"
    using update_stats_ok [of ?s1 clk] assms(4) by auto
  show ?thesis
    using assms(2) s2
    by (auto simp: do_gst_push_src_fill_def take_locked_item [OF assms(1,2)] r
        get_flow_return_locked_def frame_def)
qed

lemma queue_svg_fields:
  "queue (queue_svg s svg p) = (if is_live s then [] else queue s) @ [(svg, p)]"
  "input_frames (queue_svg s svg p) = input_frames s + 1"
  "output_frames (queue_svg s svg p) = output_frames s"
  "is_live (queue_svg s svg p) = is_live s"
  "eos (queue_svg s svg p) = eos s"
  "flushing (queue_svg s svg p) = flushing s"
  "width (queue_svg s svg p) = width s"
  "height (queue_svg s svg p) = height s"
  "min_stride (queue_svg s svg p) = min_stride s"
  "print_fps (queue_svg s svg p) = print_fps s"
  "fps_start (queue_svg s svg p) = fps_start s"
  "\<not> waiting (queue_svg s svg p)"
  by (simp_all add: queue_svg_def notify_all_def Let_def)

lemma submits_snoc:
  "submits s (items @ [(svg, p)]) = queue_svg (submits s items) svg p"
  by (induction s items rule: submits.induct) simp_all

lemma submits_fields:
  "is_live (submits s items) = is_live s"
  "eos (submits s items) = eos s"
  "flushing (submits s items) = flushing s"
  "width (submits s items) = width s"
  "height (submits s items) = height s"
  "min_stride (submits s items) = min_stride s"
  "print_fps (submits s items) = print_fps s"
  "input_frames (submits s items) = input_frames s + int (length items)"
  "output_frames (submits s items) = output_frames s"
  by (induction s items rule: submits.induct) (simp_all add: queue_svg_fields)

lemma submits_queue:
  "queue (submits s items) =
     (if is_live s \<and> items \<noteq> [] then [last items] else queue s @ items)"
proof (induction items rule: rev_induct)
  case Nil
  show ?case by simp
next
  case (snoc item items)
  obtain svg p where item: "item = (svg, p)"
    by (cases item)
  show ?case
    using snoc by (simp add: item submits_snoc queue_svg_fields submits_fields)
qed

lemma same_geometry:
  assumes "width s' = width s" and "height s' = height s" and "min_stride s' = min_stride s"
  shows "buffer_ok s' buf = buffer_ok s buf" and "frame rsvg s' svg p buf = frame rsvg s svg p buf"
  using assms by (simp_all add: buffer_ok_def frame_def stride_of_def split: option.splits)

lemma same_geometry_deliveries:
  assumes "width s' = width s" and "height s' = height s" and "min_stride s' = min_stride s"
  shows "deliveries rsvg s' items cbs = deliveries rsvg s items cbs"
proof (induction items arbitrary: cbs)
  case Nil
  show ?case by simp
next
  case (Cons item items)
  show ?case
  proof (cases cbs)
    case Nil
    then show ?thesis by simp
  next
    case (Cons cb cbs')
    obtain svg p clk buf where "item = (svg, p)" and "cb = (clk, buf)"
      by (cases item, cases cb)
    then show ?thesis
      using Cons.IH [of cbs'] by (simp add: Cons same_geometry(2) [OF assms])
  qed
qed

lemma fills_deliver:
  assumes "\<not> flushing s" and "\<not> eos s" and "0 \<le> print_fps s"
    and "length cbs = length (queue s)" and "\<forall>cb \<in> set cbs. buffer_ok s (snd cb)"
  shows "fst (fills rsvg s cbs) = deliveries rsvg s (queue s) cbs"
  using assms
proof (induction cbs arbitrary: s)
  case Nil
  then show ?case by simp
next
  case (Cons cb cbs)
  obtain clk buf where cb: "cb = (clk, buf)"
    by (cases cb)
  obtain svg p rest where q: "queue s = (svg, p) # rest"
    using Cons.prems(4) by (cases "queue s") auto
  have ok: "buffer_ok s buf"
    using Cons.prems(5) by (simp add: cb)
  obtain s' where s': "do_gst_push_src_fill rsvg clk s buf =
        (Returned (Some OK), frame rsvg s svg p buf, s')"
      "queue s' = rest" "\<not> eos s'" "\<not> flushing s'" "width s' = width s"
      "height s' = height s" "min_stride s' = min_stride s" "print_fps s' = print_fps s"
    using fill_item [OF q Cons.prems(1) ok Cons.prems(3), of rsvg clk] Cons.prems(2)
    by auto
  have geo: "\<And>b. buffer_ok s' b = buffer_ok s b"
      "\<And>items cbs. deliveries rsvg s' items cbs = deliveries rsvg s items cbs"
    using same_geometry(1) [OF s'(5,6,7)] same_geometry_deliveries [OF s'(5,6,7)] by auto
  have "fst (fills rsvg s' cbs) = deliveries rsvg s' (queue s') cbs"
  proof (rule Cons.IH)
    show "\<not> flushing s'" "\<not> eos s'" by (rule s')+
    show "0 \<le> print_fps s'" using Cons.prems(3) s'(8) by simp
    show "length cbs = length (queue s')" using Cons.prems(4) q s'(2) by simp
    show "\<forall>cb \<in> set cbs. buffer_ok s' (snd cb)" using Cons.prems(5) geo(1) by simp
  qed
  then show ?case
    by (cases "fills rsvg s' cbs") (simp add: cb q s' geo)
qed

lemma src0_simps:
  "is_live src0" "width src0 = 2" "height src0 = 1" "min_stride src0 = 8"
  "\<not> flushing src0" "\<not> eos src0" "queue src0 = []" "print_fps src0 = 0"
  by (simp_all add: src0_def do_set_caps_def init_def DEFAULT_IS_LIVE_def)

lemma buf0_ok: "buffer_ok src0 buf0"
  by (simp add: buffer_ok_def stride_of_def buf0_def src0_simps)

lemma update_stats_eos:
  "update_stats clk s = Inr s' \<Longrightarrow> eos s' = eos s \<and> queue s' = queue s \<and> flushing s' = flushing s"
  "update_stats clk s = Inl (e, s') \<Longrightarrow> eos s' = eos s \<and> queue s' = queue s \<and> flushing s' = flushing s"
  by (auto simp: update_stats_def Let_def split: if_splits)

lemma fill_no_eos:
  assumes "\<not> eos s"
  shows "fst (do_gst_push_src_fill rsvg clk s buf) \<noteq> Returned (Some EOS)
         \<and> \<not> eos (snd (snd (do_gst_push_src_fill rsvg clk s buf)))"
proof (cases "queue s")
  case Nil
  then show ?thesis
    using assms by (simp add: do_gst_push_src_fill_def take_locked_empty)
next
  case (Cons item rest)
  obtain svg p where item: "item = (svg, p)"
    by (cases item)
  show ?thesis
  proof (cases "flushing s")
    case True
    then show ?thesis
      using assms Cons by (simp add: do_gst_push_src_fill_def take_locked_flushing)
  next
    case False
    have t: "take_locked s = (Item svg p, s\<lparr>queue := rest\<rparr>)"
      using Cons False by (simp add: item take_locked_item)
    show ?thesis
    proof (cases "render_svg rsvg (s\<lparr>queue := rest\<rparr>) svg buf")
      case (Inl e)
      then show ?thesis
        using assms by (simp add: do_gst_push_src_fill_def t)
    next
      case (Inr buf1)
      show ?thesis
      proof (cases "update_stats clk (s\<lparr>queue := rest\<rparr>)")
        case (Inl es)
        obtain e s2 where es: "es = (e, s2)"
          by (cases es)
        have "\<not> eos s2"
          using update_stats_eos(2) [of clk "s\<lparr>queue := rest\<rparr>" e s2] Inl es assms by simp
        then show ?thesis
          by (simp add: do_gst_push_src_fill_def t Inr Inl es)
      next
        case (Inr s2)
        have "\<not> eos s2"
          using update_stats_eos(1) [of clk "s\<lparr>queue := rest\<rparr>" s2] Inr assms by simp
        then show ?thesis
          using Inr \<open>render_svg rsvg (s\<lparr>queue := rest\<rparr>) svg buf = Inr buf1\<close>
          by (simp add: do_gst_push_src_fill_def t get_flow_return_locked_def)
      qed
    qed
  qed
qed

lemma run_call_no_eos:
  assumes "\<not> eos s" and "c \<noteq> Set_eos"
  shows "fst (run_call rsvg sfw s c) \<noteq> Some (Returned (Some EOS))
         \<and> \<not> eos (snd (run_call rsvg sfw s c))"
proof (cases c)
  case (Fill clk buf)
  then show ?thesis
    using fill_no_eos [OF assms(1), of rsvg clk buf]
    by (cases "do_gst_push_src_fill rsvg clk s buf") auto
next
  case (Event ev)
  then show ?thesis
    using assms by (cases ev) (simp_all add: reset_def)
qed (use assms in \<open>simp_all add: queue_svg_fields set_flushing_def notify_all_def reset_def
      do_start_def do_stop_def do_unlock_def do_unlock_stop_def do_set_caps_def\<close>)

lemma run_calls_no_eos:
  "\<not> eos s \<Longrightarrow> Set_eos \<notin> set cs \<Longrightarrow>
     Some (Returned (Some EOS)) \<notin> set (fst (run_calls rsvg sfw s cs))"
proof (induction cs arbitrary: s)
  case Nil
  then show ?case by simp
next
  case (Cons c cs)
  obtain out s' where r: "run_call rsvg sfw s c = (out, s')"
    by (cases "run_call rsvg sfw s c")
  have "out \<noteq> Some (Returned (Some EOS))" and "\<not> eos s'"
    using run_call_no_eos [of s c rsvg sfw] Cons.prems r by auto
  then show ?case
    using Cons.IH [of s'] Cons.prems(2) by (cases "run_calls rsvg sfw s' cs") (simp add: r)
qed

lemma update_stats_counters:
  "input_frames (final_state (update_stats clk s)) =
     (if report_due clk s \<and> elapsed_at clk s \<noteq> 0 then 0 else input_frames s)"
  "output_frames (final_state (update_stats clk s)) =
     (if report_due clk s \<and> elapsed_at clk s \<noteq> 0 then 0 else output_frames s + 1)"
  "print_fps (final_state (update_stats clk s)) = print_fps s"
  by (auto simp: final_state_def update_stats_def Let_def report_due_def elapsed_at_def)

lemma get_flow_return_locked_counters:
  "input_frames (snd (get_flow_return_locked s d)) = input_frames s"
  "output_frames (snd (get_flow_return_locked s d)) = output_frames s"
  "print_fps (snd (get_flow_return_locked s d)) = print_fps s"
  by (simp_all add: get_flow_return_locked_def)

lemma fill_rendering_state:
  assumes "queue s = (svg, p) # rest" and "\<not> flushing s" and "buffer_ok s buf"
  shows "snd (snd (do_gst_push_src_fill rsvg clk s buf)) =
     (case update_stats clk (s\<lparr>queue := rest\<rparr>) of
        Inl (e, s2) \<Rightarrow> s2
      | Inr s2 \<Rightarrow> snd (get_flow_return_locked s2 (Some OK)))"
proof -
  have ok1: "buffer_ok (s\<lparr>queue := rest\<rparr>) buf"
    using assms(3) by (simp add: buffer_ok_def stride_of_def split: option.splits)
  show ?thesis
    by (simp add: do_gst_push_src_fill_def take_locked_item [OF assms(1,2)]
        render_svg_ok [OF ok1] Let_def split: sum.splits prod.splits)
qed

lemma fill_not_rendering_state:
  assumes "\<not> (queue s \<noteq> [] \<and> \<not> flushing s \<and> buffer_ok s buf)"
  shows "input_frames (snd (snd (do_gst_push_src_fill rsvg clk s buf))) = input_frames s
         \<and> output_frames (snd (snd (do_gst_push_src_fill rsvg clk s buf))) = output_frames s
         \<and> print_fps (snd (snd (do_gst_push_src_fill rsvg clk s buf))) = print_fps s"
proof (cases "queue s")
  case Nil
  then show ?thesis
    by (simp add: do_gst_push_src_fill_def take_locked_empty)
next
  case (Cons item rest)
  obtain svg p where item: "item = (svg, p)"
    by (cases item)
  show ?thesis
  proof (cases "flushing s")
    case True
    then show ?thesis
      using Cons by (simp add: do_gst_push_src_fill_def take_locked_flushing)
  next
    case False
    then have "\<not> buffer_ok (s\<lparr>queue := rest\<rparr>) buf"
      using assms Cons by (simp add: buffer_ok_def stride_of_def split: option.splits)
    then obtain e where "render_svg rsvg (s\<lparr>queue := rest\<rparr>) svg buf = Inl e"
      using render_svg_fails by blast
    then show ?thesis
      using Cons False by (simp add: item do_gst_push_src_fill_def take_locked_item)
  qed
qed

lemma fill_counters:
  "counters (snd (snd (do_gst_push_src_fill rsvg clk s buf))) =
     (if renders s buf
      then if report_due clk s \<and> elapsed_at clk s \<noteq> 0 then (0, 0)
           else (input_frames s, output_frames s + 1)
      else (input_frames s, output_frames s))"
  "print_fps (snd (snd (do_gst_push_src_fill rsvg clk s buf))) = print_fps s"
proof -
  let ?s' = "snd (snd (do_gst_push_src_fill rsvg clk s buf))"
  have "counters ?s' =
     (if renders s buf
      then if report_due clk s \<and> elapsed_at clk s \<noteq> 0 then (0, 0)
           else (input_frames s, output_frames s + 1)
      else (input_frames s, output_frames s)) \<and> print_fps ?s' = print_fps s"
  proof (cases "renders s buf")
    case False
    then have "\<not> (queue s \<noteq> [] \<and> \<not> flushing s \<and> buffer_ok s buf)"
      by (simp add: renders_def)
    from fill_not_rendering_state [OF this, of rsvg clk] False show ?thesis
      by (simp add: counters_def)
  next
    case True
    then obtain svg p rest where q: "queue s = (svg, p) # rest"
      by (cases "queue s") (auto simp: renders_def)
    let ?u = "update_stats clk (s\<lparr>queue := rest\<rparr>)"
    have rd: "report_due clk (s\<lparr>queue := rest\<rparr>) = report_due clk s"
        "elapsed_at clk (s\<lparr>queue := rest\<rparr>) = elapsed_at clk s"
      by (simp_all add: report_due_def elapsed_at_def)
    have st: "?s' =
        (case ?u of Inl (e, s2) \<Rightarrow> s2 | Inr s2 \<Rightarrow> snd (get_flow_return_locked s2 (Some OK)))"
      using fill_rendering_state [OF q, of buf rsvg clk] True by (simp add: renders_def)
    have "input_frames ?s' = input_frames (final_state ?u)"
        "output_frames ?s' = output_frames (final_state ?u)"
        "print_fps ?s' = print_fps (final_state ?u)"
      unfolding st
      by (simp_all add: final_state_def get_flow_return_locked_counters
          split: sum.splits prod.splits)
    then show ?thesis
      using True by (simp add: counters_def update_stats_counters rd)
  qed
  then show "counters ?s' =
     (if renders s buf
      then if report_due clk s \<and> elapsed_at clk s \<noteq> 0 then (0, 0)
           else (input_frames s, output_frames s + 1)
      else (input_frames s, output_frames s))"
    and "print_fps ?s' = print_fps s"
    by simp_all
qed

lemma run_call_Fill:
  "snd (run_call rsvg sfw s (Fill clk buf)) = snd (snd (do_gst_push_src_fill rsvg clk s buf))"
  by (cases "do_gst_push_src_fill rsvg clk s buf") simp

lemma run_call_print_fps:
  "print_fps (snd (run_call rsvg sfw s c)) = print_fps s"
proof (cases c)
  case (Fill clk buf)
  then show ?thesis
    by (simp only: run_call_Fill fill_counters(2))
next
  case (Event ev)
  then show ?thesis
    by (cases ev) (simp_all add: reset_def)
qed (simp_all add: queue_svg_fields set_eos_def set_flushing_def notify_all_def reset_def
      do_start_def do_stop_def do_unlock_def do_unlock_stop_def do_set_caps_def)

lemma run_call_counters:
  "(case c of
      Queue_svg svg p \<Rightarrow>
        counters (snd (run_call rsvg sfw s c)) = (input_frames s + 1, output_frames s)
    | Fill clk buf \<Rightarrow>
        counters (snd (run_call rsvg sfw s c)) =
          (if renders s buf
           then if report_due clk s \<and> elapsed_at clk s \<noteq> 0 then (0, 0)
                else (input_frames s, output_frames s + 1)
           else (input_frames s, output_frames s))
    | _ \<Rightarrow> counters (snd (run_call rsvg sfw s c)) = (input_frames s, output_frames s))"
proof (cases c)
  case (Fill clk buf)
  then show ?thesis
    by (simp only: run_call_Fill fill_counters(1) call.case)
next
  case (Event ev)
  then show ?thesis
    by (cases ev) (simp_all add: counters_def reset_def)
qed (simp_all add: counters_def queue_svg_fields set_eos_def set_flushing_def notify_all_def
      reset_def do_start_def do_stop_def do_unlock_def do_unlock_stop_def do_set_caps_def)

lemma run_call_monotone:
  assumes "print_fps s = 0"
  shows "input_frames s \<le> input_frames (snd (run_call rsvg sfw s c))
         \<and> output_frames s \<le> output_frames (snd (run_call rsvg sfw s c))"
proof -
  have "\<not> report_due clk s" for clk
    using assms by (simp add: report_due_def)
  then show ?thesis
    using run_call_counters [where c = c and rsvg = rsvg and sfw = sfw and s = s]
    by (cases c) (simp_all add: counters_def split: if_splits)
qed

lemma run_calls_monotone:
  "print_fps s = 0 \<Longrightarrow>
     input_frames s \<le> input_frames (snd (run_calls rsvg sfw s cs))
     \<and> output_frames s \<le> output_frames (snd (run_calls rsvg sfw s cs))"
proof (induction cs arbitrary: s)
  case Nil
  show ?case by simp
next
  case (Cons c cs)
  obtain out s' where r: "run_call rsvg sfw s c = (out, s')"
    by (cases "run_call rsvg sfw s c")
  have p: "print_fps s' = 0"
    using run_call_print_fps [of rsvg sfw s c] r Cons.prems by simp
  have "input_frames s \<le> input_frames s'" "output_frames s \<le> output_frames s'"
    using run_call_monotone [OF Cons.prems, of rsvg sfw c] r by simp_all
  then show ?case
    using Cons.IH [OF p] by (cases "run_calls rsvg sfw s' cs") (simp add: r)
qed

subsection \<open>Seek events\<close>

lemma flush_test_holds: "flush_test flags"
  unfolding flush_test_def SeekFlags_FLUSH_def
  apply (rule notI)
  apply (drule arg_cong [where f = "\<lambda>w. bit w 0"])
  apply (simp add: bit_or_iff)
  done

text \<open>
  C8. In \<open>do_event\<close> the test \<open>flags | Gst.SeekFlags.FLUSH\<close> is true for every value
  of the seek flags, whether or not the FLUSH bit is set in them. Every seek event
  therefore sends flush-start and flush-stop, in that order, and then resets the element.
\<close>

theorem seek_flush_test_always_true:
  "flush_test flags \<and>
   do_event s (SEEK flags) = (Handled True, [Flush_start, Flush_stop True], reset s)"
  by (simp add: flush_test_holds)

theorem seek_flush_test_always_true_witness:
  "flush_test 0 \<and>
   do_event (init 0) (SEEK 0) = (Handled True, [Flush_start, Flush_stop True], reset (init 0))"
  by (rule seek_flush_test_always_true)

subsection \<open>Submission\<close>

text \<open>
  C4. In live mode a submit clears the queue and then appends the new item, so after
  one or more submits the queue holds exactly the most recent item. Out of live mode a
  submit only appends.
\<close>

theorem live_collapsing_invariant:
  "queue (queue_svg s svg p) = (if is_live s then [(svg, p)] else queue s @ [(svg, p)]) \<and>
   queue (submits s (items @ [item])) =
     (if is_live s then [item] else queue s @ items @ [item])"
  by (simp add: queue_svg_fields submits_queue)

theorem live_collapsing_invariant_witness:
  "queue (queue_svg (init 0) ''b'' 2) = [(''b'', 2)] \<and>
   queue (submits (init 0) [(''a'', 1), (''b'', 2)]) = [(''b'', 2)]"
  using live_collapsing_invariant [of "init 0" "''b''" 2 "[(''a'', 1)]" "(''b'', 2)"]
  by (simp add: init_def DEFAULT_IS_LIVE_def)

subsection \<open>Delivery order\<close>

text \<open>
  C5. Out of live mode, after n submits into an empty queue with no reset, flush or
  end-of-stream, n sequential fill calls with adequate buffers each return \<open>OK\<close> and
  leave in their buffer the frame of the next item in submission order, stamped with
  the timestamp given at its submit.
\<close>

theorem fifo_non_live:
  assumes "\<not> is_live s" and "queue s = []" and "\<not> eos s" and "\<not> flushing s"
    and "0 \<le> print_fps s" and "length cbs = length items"
    and "\<forall>cb \<in> set cbs. buffer_ok s (snd cb)"
  shows "fst (fills rsvg (submits s items) cbs) = deliveries rsvg s items cbs"
proof -
  let ?t = "submits s items"
  have geo: "width ?t = width s" "height ?t = height s" "min_stride ?t = min_stride s"
    by (simp_all add: submits_fields)
  have q: "queue ?t = items"
    using assms(1,2) by (simp add: submits_queue)
  have "fst (fills rsvg ?t cbs) = deliveries rsvg ?t (queue ?t) cbs"
  proof (rule fills_deliver)
    show "\<not> flushing ?t" "\<not> eos ?t" "0 \<le> print_fps ?t"
      using assms(3,4,5) by (simp_all add: submits_fields)
    show "length cbs = length (queue ?t)" using assms(6) q by simp
    show "\<forall>cb \<in> set cbs. buffer_ok ?t (snd cb)"
      using assms(7) same_geometry(1) [OF geo] by simp
  qed
  then show ?thesis
    using same_geometry_deliveries [OF geo] q by simp
qed

theorem fifo_non_live_witness:
  "fst (fills blank (submits (src0\<lparr>is_live := False\<rparr>) [(''a'', 10), (''b'', 20)])
          [(clk0, buf0), (clk0, buf0)]) =
     [(Returned (Some OK), buf0\<lparr>data := [0, 0, 0, 0, 0, 0, 0, 0], pts := 10\<rparr>),
      (Returned (Some OK), buf0\<lparr>data := [0, 0, 0, 0, 0, 0, 0, 0], pts := 20\<rparr>)]"
  using fifo_non_live [of "src0\<lparr>is_live := False\<rparr>" "[(clk0, buf0), (clk0, buf0)]"
      "[(''a'', 10), (''b'', 20)]" blank] buf0_ok
  by (simp add: src0_simps buffer_ok_def stride_of_def frame_def blank_def buf0_def)

subsection \<open>End of stream\<close>

text \<open>
  C1, as the code has it. When one item is submitted into an empty queue and
  \<open>set_eos\<close> is called, the first fill renders that item into its buffer, stamps it
  with the item's timestamp and returns \<open>EOS\<close>, clearing the flag: the check after
  the render finds the queue empty and the flag set. The second fill finds neither an
  item nor the flag and waits. From then on no call returns \<open>EOS\<close> unless
  \<open>set_eos\<close> is called again.
\<close>

theorem eos_with_last_item_single_shot:
  assumes "queue s = []" and "\<not> flushing s" and "buffer_ok s buf" and "0 \<le> print_fps s"
  shows "\<exists>s1. do_gst_push_src_fill rsvg clk (set_eos (queue_svg s svg p)) buf =
             (Returned (Some EOS), frame rsvg s svg p buf, s1)
           \<and> \<not> eos s1
           \<and> do_gst_push_src_fill rsvg clk' s1 buf' = (Blocked, buf', s1\<lparr>waiting := True\<rparr>)
           \<and> (Set_eos \<notin> set cs \<longrightarrow>
                Some (Returned (Some EOS)) \<notin> set (fst (run_calls rsvg sfw s1 cs)))"
proof -
  let ?t = "set_eos (queue_svg s svg p)"
  have q: "queue ?t = (svg, p) # []"
    using assms(1) by (simp add: set_eos_def queue_svg_fields)
  have f: "\<not> flushing ?t" "0 \<le> print_fps ?t" "eos ?t"
    using assms(2,4) by (simp_all add: set_eos_def queue_svg_fields)
  have geo: "width ?t = width s" "height ?t = height s" "min_stride ?t = min_stride s"
    by (simp_all add: set_eos_def queue_svg_fields)
  have ok: "buffer_ok ?t buf"
    using assms(3) same_geometry(1) [OF geo] by simp
  obtain s1 where s1: "do_gst_push_src_fill rsvg clk ?t buf =
        (Returned (Some EOS), frame rsvg ?t svg p buf, s1)"
      "queue s1 = []" "\<not> eos s1" "\<not> flushing s1"
    using fill_item [OF q f(1) ok f(2), of rsvg clk] f(3) by auto
  have blocked: "do_gst_push_src_fill rsvg clk' s1 buf' = (Blocked, buf', s1\<lparr>waiting := True\<rparr>)"
    using s1(2,3,4) by (simp add: do_gst_push_src_fill_def take_locked_empty)
  show ?thesis
    using s1 blocked run_calls_no_eos [OF s1(3), of cs rsvg sfw] same_geometry(2) [OF geo]
    by simp
qed

theorem eos_with_last_item_single_shot_witness:
  "\<exists>s1. do_gst_push_src_fill blank clk0 (set_eos (queue_svg src0 ''a'' 10)) buf0 =
          (Returned (Some EOS), buf0\<lparr>data := [0, 0, 0, 0, 0, 0, 0, 0], pts := 10\<rparr>, s1)
        \<and> \<not> eos s1
        \<and> do_gst_push_src_fill blank clk0 s1 buf0 = (Blocked, buf0, s1\<lparr>waiting := True\<rparr>)
        \<and> Some (Returned (Some EOS)) \<notin>
            set (fst (run_calls blank (\<lambda>w. 4 * w) s1
                       [Fill clk0 buf0, Queue_svg ''b'' 20, Fill clk0 buf0]))"
  using eos_with_last_item_single_shot [of src0 buf0 blank clk0 "''a''" 10 clk0 buf0
      "[Fill clk0 buf0, Queue_svg ''b'' 20, Fill clk0 buf0]" "\<lambda>w. 4 * w"] buf0_ok
  by (simp add: src0_simps frame_def stride_of_def blank_def buf0_def)

text \<open>
  The order the specification gives for this scenario, \<open>OK\<close> from the first fill and
  \<open>EOS\<close> from the second, is not what the element does: the first fill already
  returns \<open>EOS\<close>, and the second waits.
\<close>

theorem eos_delivery_counterexample:
  "fst (do_gst_push_src_fill blank clk0 (set_eos (queue_svg src0 ''a'' 10)) buf0)
     = Returned (Some EOS)
   \<and> fst (do_gst_push_src_fill blank clk0 (set_eos (queue_svg src0 ''a'' 10)) buf0)
     \<noteq> Returned (Some OK)
   \<and> fst (do_gst_push_src_fill blank clk0
          (snd (snd (do_gst_push_src_fill blank clk0 (set_eos (queue_svg src0 ''a'' 10)) buf0)))
          buf0) = Blocked"
  by (simp add: do_gst_push_src_fill_def take_locked_def get_flow_return_locked_def
      wait_loop_def render_svg_def frame_stride_def gst_buffer_map_def update_stats_def
      set_eos_def queue_svg_def notify_all_def src0_def do_set_caps_def init_def
      DEFAULT_IS_LIVE_def buf0_def clk0_def blank_def Let_def)

subsection \<open>Flushing\<close>

text \<open>
  C3. While \<open>flushing\<close> is set and an item is queued, a fill returns \<open>FLUSHING\<close>
  and leaves the object, the queue included, and the buffer as they were. After
  \<open>set_flushing(False)\<close> the next fill with an adequate buffer renders that same item
  and stamps it with its original timestamp.
\<close>

theorem flush_veto_preserves_queue:
  assumes "flushing s" and "queue s = (svg, p) # rest" and "buffer_ok s buf'"
    and "0 \<le> print_fps s"
  shows "do_gst_push_src_fill rsvg clk s buf = (Returned (Some FLUSHING), buf, s)
         \<and> (\<exists>s'. do_gst_push_src_fill rsvg clk' (set_flushing s False) buf' =
                   (Returned (Some (if rest = [] \<and> eos s then EOS else OK)),
                    frame rsvg s svg p buf', s')
                 \<and> queue s' = rest)"
proof -
  let ?t = "set_flushing s False"
  have veto: "do_gst_push_src_fill rsvg clk s buf = (Returned (Some FLUSHING), buf, s)"
    using assms(1,2) by (simp add: do_gst_push_src_fill_def take_locked_flushing)
  have t: "queue ?t = (svg, p) # rest" "\<not> flushing ?t" "0 \<le> print_fps ?t" "eos ?t = eos s"
    using assms(2,4) by (simp_all add: set_flushing_def notify_all_def)
  have geo: "width ?t = width s" "height ?t = height s" "min_stride ?t = min_stride s"
    by (simp_all add: set_flushing_def notify_all_def)
  have ok: "buffer_ok ?t buf'"
    using assms(3) same_geometry(1) [OF geo] by simp
  show ?thesis
    using veto fill_item [OF t(1) t(2) ok t(3), of rsvg clk'] t(4) same_geometry(2) [OF geo]
    by auto
qed

theorem flush_veto_preserves_queue_witness:
  "do_gst_push_src_fill blank clk0 (set_flushing (queue_svg src0 ''a'' 10) True) buf0 =
     (Returned (Some FLUSHING), buf0, set_flushing (queue_svg src0 ''a'' 10) True)
   \<and> (\<exists>s'. do_gst_push_src_fill blank clk0
               (set_flushing (set_flushing (queue_svg src0 ''a'' 10) True) False) buf0 =
             (Returned (Some OK), buf0\<lparr>data := [0, 0, 0, 0, 0, 0, 0, 0], pts := 10\<rparr>, s')
           \<and> queue s' = [])"
  using flush_veto_preserves_queue [of "set_flushing (queue_svg src0 ''a'' 10) True"
      "''a''" 10 "[]" buf0 blank clk0 buf0 clk0] buf0_ok
  by (simp add: src0_simps queue_svg_fields set_flushing_def notify_all_def buffer_ok_def
      frame_def stride_of_def blank_def buf0_def)

text \<open>
  C10. \<open>queue_svg\<close> does not look at \<open>flushing\<close>: items submitted during a flush
  are counted in \<open>input_frames\<close> and kept in the queue (all of them out of live mode,
  the last one in live mode), and after \<open>set_flushing(False)\<close> sequential fills
  deliver exactly the kept items, in order.
\<close>

theorem submissions_during_flush:
  assumes "flushing s" and "queue s = []" and "\<not> eos s" and "0 \<le> print_fps s"
    and "length cbs = length (queue (submits s items))"
    and "\<forall>cb \<in> set cbs. buffer_ok s (snd cb)"
  shows "flushing (submits s items)
         \<and> input_frames (submits s items) = input_frames s + int (length items)
         \<and> queue (submits s items) = (if is_live s \<and> items \<noteq> [] then [last items] else items)
         \<and> fst (fills rsvg (set_flushing (submits s items) False) cbs) =
             deliveries rsvg s (queue (submits s items)) cbs"
proof -
  let ?t = "set_flushing (submits s items) False"
  have geo: "width ?t = width s" "height ?t = height s" "min_stride ?t = min_stride s"
    by (simp_all add: set_flushing_def notify_all_def submits_fields)
  have q: "queue ?t = queue (submits s items)"
    by (simp add: set_flushing_def notify_all_def)
  have "fst (fills rsvg ?t cbs) = deliveries rsvg ?t (queue ?t) cbs"
  proof (rule fills_deliver)
    show "\<not> flushing ?t" "\<not> eos ?t" "0 \<le> print_fps ?t"
      using assms(3,4) by (simp_all add: set_flushing_def notify_all_def submits_fields)
    show "length cbs = length (queue ?t)" using assms(5) q by simp
    show "\<forall>cb \<in> set cbs. buffer_ok ?t (snd cb)"
      using assms(6) same_geometry(1) [OF geo] by simp
  qed
  then show ?thesis
    using same_geometry_deliveries [OF geo] q assms(1,2)
    by (simp add: submits_fields submits_queue)
qed

theorem submissions_during_flush_witness:
  "flushing (submits (set_flushing (src0\<lparr>is_live := False\<rparr>) True) [(''a'', 10), (''b'', 20)])
   \<and> input_frames (submits (set_flushing (src0\<lparr>is_live := False\<rparr>) True)
        [(''a'', 10), (''b'', 20)]) = 2
   \<and> fst (fills blank
        (set_flushing (submits (set_flushing (src0\<lparr>is_live := False\<rparr>) True)
            [(''a'', 10), (''b'', 20)]) False)
        [(clk0, buf0), (clk0, buf0)]) =
     [(Returned (Some OK), buf0\<lparr>data := [0, 0, 0, 0, 0, 0, 0, 0], pts := 10\<rparr>),
      (Returned (Some OK), buf0\<lparr>data := [0, 0, 0, 0, 0, 0, 0, 0], pts := 20\<rparr>)]"
  using submissions_during_flush [of "set_flushing (src0\<lparr>is_live := False\<rparr>) True"
      "[(clk0, buf0), (clk0, buf0)]" "[(''a'', 10), (''b'', 20)]" blank] buf0_ok
  by (simp add: src0_simps src0_def do_set_caps_def init_def queue_svg_fields set_flushing_def notify_all_def
      buffer_ok_def frame_def stride_of_def blank_def buf0_def)

subsection \<open>Waking the pull thread\<close>

text \<open>
  C2, as the code has it. \<open>queue_svg\<close> and \<open>set_flushing\<close> notify all waiters after
  updating the shared state, so a fill asleep in the wait is woken by either. \<open>reset\<close>
  does not notify and leaves the waiter asleep; the state it leaves, an empty queue with
  the end-of-stream flag clear, is one in which a fill that is not flushing only waits.
\<close>

theorem wakeups_of_blocked_fill:
  "\<not> waiting (queue_svg s svg p) \<and> \<not> waiting (set_flushing s v)
   \<and> waiting (reset s) = waiting s
   \<and> (\<not> flushing s \<longrightarrow>
        do_gst_push_src_fill rsvg clk (reset s) buf = (Blocked, buf, (reset s)\<lparr>waiting := True\<rparr>))"
  by (simp add: queue_svg_fields set_flushing_def notify_all_def reset_def
      do_gst_push_src_fill_def take_locked_empty)

theorem wakeups_of_blocked_fill_witness:
  "\<not> waiting (queue_svg (src0\<lparr>waiting := True\<rparr>) ''a'' 10)
   \<and> \<not> waiting (set_flushing (src0\<lparr>waiting := True\<rparr>) True)
   \<and> waiting (reset (src0\<lparr>waiting := True\<rparr>))
   \<and> do_gst_push_src_fill blank clk0 (reset (src0\<lparr>waiting := True\<rparr>)) buf0 =
       (Blocked, buf0, (reset (src0\<lparr>waiting := True\<rparr>))\<lparr>waiting := True\<rparr>)"
  using wakeups_of_blocked_fill [of "src0\<lparr>waiting := True\<rparr>" "''a''" 10 True blank clk0 buf0]
  by (simp add: src0_simps)

text \<open>
  A fill on the freshly negotiated element finds nothing and sleeps. Neither \<open>set_eos\<close>
  nor \<open>reset\<close> wakes it: of the four producer operations only two call
  \<open>notify_all\<close>.
\<close>

theorem lost_wakeup_counterexample:
  "do_gst_push_src_fill blank clk0 src0 buf0 = (Blocked, buf0, src0\<lparr>waiting := True\<rparr>)
   \<and> waiting (set_eos (src0\<lparr>waiting := True\<rparr>))
   \<and> waiting (reset (src0\<lparr>waiting := True\<rparr>))"
  by (simp add: do_gst_push_src_fill_def take_locked_empty src0_simps set_eos_def reset_def)

subsection \<open>Rendering\<close>

text \<open>
  C6. When the buffer has fewer bytes than stride times height, \<open>render_svg\<close> raises
  before it writes: the capacity assertion of line 259 precedes the \<open>memset\<close>, so
  neither the zero fill nor the rasterizer is reached. The error is \<open>AssertionError\<close>
  whenever the buffer is writable and can be mapped (otherwise the mapping raises
  first). A fill that took an item then raises too and leaves the buffer as it was
  passed, bytes and timestamp.
\<close>

theorem buffer_capacity_guard:
  assumes "int (length (data buf)) < stride_of s buf * height s"
  shows "(\<exists>e. render_svg rsvg s svg buf = Inl e)
         \<and> (writable buf \<and> mappable buf \<longrightarrow> render_svg rsvg s svg buf = Inl AssertionError)
         \<and> (queue s = (svg, p) # rest \<and> \<not> flushing s \<longrightarrow>
              (\<exists>e. do_gst_push_src_fill rsvg clk s buf = (Raised e, buf, s\<lparr>queue := rest\<rparr>)))"
proof -
  have short: "\<And>t. width t = width s \<Longrightarrow> height t = height s \<Longrightarrow> min_stride t = min_stride s
      \<Longrightarrow> \<exists>e. render_svg rsvg t svg buf = Inl e"
    using assms
    by (auto simp: render_svg_def frame_stride_def gst_buffer_map_def stride_of_def
        split: option.splits)
  have a: "writable buf \<and> mappable buf \<longrightarrow> render_svg rsvg s svg buf = Inl AssertionError"
    using assms
    by (auto simp: render_svg_def frame_stride_def gst_buffer_map_def stride_of_def
        split: option.splits)
  have f: "queue s = (svg, p) # rest \<and> \<not> flushing s \<longrightarrow>
      (\<exists>e. do_gst_push_src_fill rsvg clk s buf = (Raised e, buf, s\<lparr>queue := rest\<rparr>))"
  proof
    assume h: "queue s = (svg, p) # rest \<and> \<not> flushing s"
    obtain e where "render_svg rsvg (s\<lparr>queue := rest\<rparr>) svg buf = Inl e"
      using short [of "s\<lparr>queue := rest\<rparr>"] by auto
    then show "\<exists>e. do_gst_push_src_fill rsvg clk s buf = (Raised e, buf, s\<lparr>queue := rest\<rparr>)"
      using h by (simp add: do_gst_push_src_fill_def take_locked_item)
  qed
  show ?thesis
    using short [of s] a f by simp
qed

theorem buffer_capacity_guard_witness:
  "render_svg blank src0 ''a'' (buf0\<lparr>data := [1, 2, 3, 4, 5, 6, 7]\<rparr>) = Inl AssertionError
   \<and> (\<exists>e. do_gst_push_src_fill blank clk0 (queue_svg src0 ''a'' 10)
             (buf0\<lparr>data := [1, 2, 3, 4, 5, 6, 7]\<rparr>) =
           (Raised e, buf0\<lparr>data := [1, 2, 3, 4, 5, 6, 7]\<rparr>,
            (queue_svg src0 ''a'' 10)\<lparr>queue := []\<rparr>))"
  using buffer_capacity_guard [of "buf0\<lparr>data := [1, 2, 3, 4, 5, 6, 7]\<rparr>"
      "queue_svg src0 ''a'' 10" blank "''a''" 10 "[]" clk0]
    buffer_capacity_guard [of "buf0\<lparr>data := [1, 2, 3, 4, 5, 6, 7]\<rparr>" src0 blank "''a''"]
  by (simp add: src0_simps queue_svg_fields stride_of_def buf0_def)

text \<open>
  C7. After caps of 64 by 32 and a submit of \<open><svg/>\<close> with timestamp 1000, a fill
  with a buffer of 64 * 32 * 4 bytes and stride 256 returns \<open>OK\<close>, sets the buffer's
  \<open>pts\<close> to 1000 and leaves every byte zero, for a rasterizer that draws nothing for
  this markup on the zeroed memory.
\<close>

theorem render_scenario:
  fixes sfw :: "int \<Rightarrow> int" and pf :: int
  defines "s1 \<equiv> snd (do_set_caps sfw (init pf) 64 32)"
  assumes "0 \<le> pf" and "buffer_ok s1 buf" and "stride_of s1 buf = 256"
    and "length (data buf) = 64 * 32 * 4"
    and "rsvg ''<svg/>'' 64 32 256 (replicate (64 * 32 * 4) 0) = replicate (64 * 32 * 4) 0"
  shows "\<exists>s'. do_gst_push_src_fill rsvg clk (queue_svg s1 ''<svg/>'' 1000) buf =
           (Returned (Some OK), buf\<lparr>data := replicate (64 * 32 * 4) 0, pts := 1000\<rparr>, s')"
proof -
  let ?t = "queue_svg s1 ''<svg/>'' 1000"
  have s1: "width s1 = 64" "height s1 = 32" "queue s1 = []" "\<not> flushing s1" "\<not> eos s1"
      "print_fps s1 = pf" "is_live s1"
    by (simp_all add: s1_def do_set_caps_def init_def DEFAULT_IS_LIVE_def)
  have q: "queue ?t = (''<svg/>'', 1000) # []"
    using s1 by (simp add: queue_svg_fields)
  have t: "\<not> flushing ?t" "0 \<le> print_fps ?t" "\<not> eos ?t"
    using s1 assms(2) by (simp_all add: queue_svg_fields)
  have geo: "width ?t = width s1" "height ?t = height s1" "min_stride ?t = min_stride s1"
    by (simp_all add: queue_svg_fields)
  have ok: "buffer_ok ?t buf"
    using assms(3) same_geometry(1) [OF geo] by simp
  have fr: "frame rsvg s1 ''<svg/>'' 1000 buf = buf\<lparr>data := replicate (64 * 32 * 4) 0, pts := 1000\<rparr>"
    using assms(4,5,6) s1(1,2) by (simp add: frame_def)
  show ?thesis
    using fill_item [OF q t(1) ok t(2), of rsvg clk] t(3) same_geometry(2) [OF geo] fr
    by auto
qed

theorem render_scenario_witness:
  "\<exists>s'. do_gst_push_src_fill blank clk0
          (queue_svg (snd (do_set_caps (\<lambda>w. 4 * w) (init 0) 64 32)) ''<svg/>'' 1000) buf_64x32 =
        (Returned (Some OK), buf_64x32\<lparr>data := replicate (64 * 32 * 4) 0, pts := 1000\<rparr>, s')"
  using render_scenario [of 0 "\<lambda>w. 4 * w" buf_64x32 blank clk0]
  by (simp add: buffer_ok_def stride_of_def buf_64x32_def blank_def do_set_caps_def init_def)

subsection \<open>Statistics\<close>

text \<open>
  C9, as the code has it. Every submit adds one to \<open>input_frames\<close>. A fill that
  renders an item adds one to \<open>output_frames\<close>, unless its report is due
  (\<open>print_fps\<close> is not zero and the elapsed time, the float that line 237 computes,
  is above it): then it sets both counters back to zero. No other call changes either
  counter. So with \<open>print_fps = 0\<close> neither counter ever decreases, over any sequence
  of calls.
\<close>

theorem counters_between_reports:
  "(case c of
      Queue_svg svg p \<Rightarrow>
        counters (snd (run_call rsvg sfw s c)) = (input_frames s + 1, output_frames s)
    | Fill clk buf \<Rightarrow>
        counters (snd (run_call rsvg sfw s c)) =
          (if renders s buf
           then if report_due clk s \<and> elapsed_at clk s \<noteq> 0 then (0, 0)
                else (input_frames s, output_frames s + 1)
           else (input_frames s, output_frames s))
    | _ \<Rightarrow> counters (snd (run_call rsvg sfw s c)) = (input_frames s, output_frames s))
   \<and> (print_fps s = 0 \<longrightarrow>
        input_frames s \<le> input_frames (snd (run_calls rsvg sfw s cs))
        \<and> output_frames s \<le> output_frames (snd (run_calls rsvg sfw s cs)))"
  using run_call_counters [where c = c and rsvg = rsvg and sfw = sfw and s = s] run_calls_monotone [of s rsvg sfw cs]
  by blast

theorem counters_between_reports_witness:
  "counters (snd (run_call blank (\<lambda>w. 4 * w) (queue_svg src0 ''a'' 10) (Fill clk0 buf0))) = (1, 1)
   \<and> input_frames (queue_svg src0 ''a'' 10)
       \<le> input_frames (snd (run_calls blank (\<lambda>w. 4 * w) (queue_svg src0 ''a'' 10)
            [Fill clk0 buf0, Reset, Queue_svg ''b'' 20]))"
  using counters_between_reports [where c = "Fill clk0 buf0" and rsvg = blank
      and sfw = "\<lambda>w. 4 * w" and s = "queue_svg src0 ''a'' 10"
      and cs = "[Fill clk0 buf0, Reset, Queue_svg ''b'' 20]"] buf0_ok
  by (simp add: src0_simps queue_svg_fields renders_def buffer_ok_def stride_of_def
      report_due_def buf0_def src0_def do_set_caps_def init_def)

text \<open>
  With \<open>PRINT_FPS=1\<close> the counters do go down. The first fill starts the window at 1
  with no time elapsed and prints nothing; after the second submit the counters stand at
  2 and 1. The next fill reads the time 3, two seconds into the window, prints its
  report and leaves both counters at 0.
\<close>

theorem counters_reset_counterexample:
  "input_frames (snd (run_calls blank (\<lambda>w. 4 * w) src1
       [Queue_svg ''a'' 10, Fill clk_early buf0, Queue_svg ''b'' 20])) = 2
   \<and> output_frames (snd (run_calls blank (\<lambda>w. 4 * w) src1
       [Queue_svg ''a'' 10, Fill clk_early buf0, Queue_svg ''b'' 20])) = 1
   \<and> input_frames (snd (run_calls blank (\<lambda>w. 4 * w) src1
       [Queue_svg ''a'' 10, Fill clk_early buf0, Queue_svg ''b'' 20, Fill clk0 buf0])) = 0
   \<and> output_frames (snd (run_calls blank (\<lambda>w. 4 * w) src1
       [Queue_svg ''a'' 10, Fill clk_early buf0, Queue_svg ''b'' 20, Fill clk0 buf0])) = 0"
  by (simp add: do_gst_push_src_fill_def take_locked_def get_flow_return_locked_def
      wait_loop_def render_svg_def frame_stride_def gst_buffer_map_def update_stats_def
      queue_svg_def notify_all_def src1_def do_set_caps_def init_def
      DEFAULT_IS_LIVE_def buf0_def clk0_def clk_early_def blank_def Let_def)

end
